theory Spec2Isabelle
  imports Complex_Main
begin

section \<open>DONUTS: measuring the shift between two images\<close>

text \<open>
  A shallow embedding of \<^verbatim>\<open>donuts.py\<close>: the class \<^verbatim>\<open>Donuts\<close> with its constructor,
  the background map helper and \<^verbatim>\<open>measure_shift\<close>. Pixel values and all derived
  quantities are modelled as exact real (complex) numbers; the only non-finite IEEE
  values that exact arithmetic can produce from finite inputs, the quotients by zero,
  are modelled explicitly where the source divides by a computed quantity.
\<close>

subsection \<open>Python and NumPy primitives\<close>

text \<open>The exceptions the source can raise, as values.\<close>

datatype error = IOError | KeyError | IndexError | ValueError | ZeroDivisionError
  | NameError string | TypeError string | AttributeError string

text \<open>Integer indexing of a sequence: a negative index counts from the end.\<close>

definition py_index :: "'a list \<Rightarrow> int \<Rightarrow> error + 'a" where
  "py_index xs i =
     (let n = int (length xs); j = (if i < 0 then i + n else i)
      in if 0 \<le> j \<and> j < n then Inr (xs ! nat j) else Inl IndexError)"

text \<open>
  Division of NumPy floats does not raise: a zero divisor yields \<^verbatim>\<open>inf\<close> or \<^verbatim>\<open>nan\<close>
  (with a warning). \<open>None\<close> stands for such a non-finite value; it stays non-finite
  under negation and under addition of a finite number.
\<close>

definition np_div :: "real \<Rightarrow> real \<Rightarrow> real option" where
  "np_div a b = (if b = 0 then None else Some (a / b))"

text \<open>
  \<^verbatim>\<open>polyfit(x, y, 2)\<close> on three points with pairwise distinct abscissae: the least
  squares quadratic is the interpolating one. The result lists the coefficients
  from the highest degree down, as NumPy does. The source only ever passes three
  points.
\<close>

fun polyfit :: "real list \<Rightarrow> real list \<Rightarrow> real list" where
  "polyfit [x0, x1, x2] [y0, y1, y2] =
     (let a = ((y2 - y1) / (x2 - x1) - (y1 - y0) / (x1 - x0)) / (x2 - x0);
          b = (y1 - y0) / (x1 - x0) - a * (x0 + x1);
          c = y0 - a * x0 * x0 - b * x0
      in [a, b, c])"
| "polyfit xs ys = []"

text \<open>Sequencing of steps that may raise: the first exception ends the computation.\<close>

definition and_then :: "error + 'a \<Rightarrow> ('a \<Rightarrow> error + 'b) \<Rightarrow> error + 'b" where
  "and_then r f = (case r of Inl e \<Rightarrow> Inl e | Inr v \<Rightarrow> f v)"

text \<open>
  A two-dimensional array is the list of its rows. (An array with no rows has no
  column count in this representation; the only consumers of such an array, the
  transforms below, reject an empty projection whichever axis is empty.)
\<close>

type_synonym array2 = "real list list"

definition ncols :: "'a list list \<Rightarrow> nat" where
  "ncols a = (case a of [] \<Rightarrow> 0 | r # _ \<Rightarrow> length r)"

text \<open>
  A slice \<^verbatim>\<open>xs[lo:hi]\<close> with integer bounds never raises: a negative bound counts
  from the end, and both bounds are clamped to the length.
\<close>

definition slice_bound :: "nat \<Rightarrow> int \<Rightarrow> nat" where
  "slice_bound n i = (if i < 0 then nat (max 0 (i + int n)) else min n (nat i))"

definition py_slice :: "'a list \<Rightarrow> int \<Rightarrow> int \<Rightarrow> 'a list" where
  "py_slice xs lo hi =
     (let a = slice_bound (length xs) lo; b = slice_bound (length xs) hi
      in take (b - a) (drop a xs))"

text \<open>\<^verbatim>\<open>data[r0:r1, c0:c1]\<close>\<close>

definition crop :: "'a list list \<Rightarrow> int \<Rightarrow> int \<Rightarrow> int \<Rightarrow> int \<Rightarrow> 'a list list" where
  "crop a r0 r1 c0 c1 = map (\<lambda>row. py_slice row c0 c1) (py_slice a r0 r1)"

text \<open>\<^verbatim>\<open>np.sum(a, axis=0)\<close>, the column sums, and \<^verbatim>\<open>np.sum(a, axis=1)\<close>, the row sums.\<close>

definition np_sum_axis0 :: "array2 \<Rightarrow> real list" where
  "np_sum_axis0 a = map (\<lambda>j. sum_list (map (\<lambda>row. row ! j) a)) [0..<ncols a]"

definition np_sum_axis1 :: "array2 \<Rightarrow> real list" where
  "np_sum_axis1 a = map sum_list a"

subsection \<open>Fourier cross-correlation (lines 114 to 130 of \<^verbatim>\<open>measure_shift\<close>)\<close>

text \<open>
  \<^verbatim>\<open>scipy.fftpack.fft\<close> and \<^verbatim>\<open>ifft\<close> in exact arithmetic: the discrete Fourier
  transform \<open>y\<^sub>k = \<Sum>\<^sub>n x\<^sub>n exp (- 2 \<pi> i k n / L)\<close> and its inverse
  \<open>x\<^sub>m = (1 / L) \<Sum>\<^sub>k y\<^sub>k exp (2 \<pi> i k m / L)\<close>. Both reject an empty array.
\<close>

definition fft :: "complex list \<Rightarrow> error + complex list" where
  "fft xs =
     (let L = length xs in
      if L = 0 then Inl ValueError
      else Inr (map (\<lambda>k. \<Sum>n<L. xs ! n * cis (- (2 * pi * real k * real n / real L))) [0..<L]))"

definition ifft :: "complex list \<Rightarrow> error + complex list" where
  "ifft ys =
     (let L = length ys in
      if L = 0 then Inl ValueError
      else Inr (map (\<lambda>m. (\<Sum>k<L. ys ! k * cis (2 * pi * real k * real m / real L)) / of_nat L)
                  [0..<L]))"

definition conjugate :: "complex list \<Rightarrow> complex list" where
  "conjugate xs = map cnj xs"

text \<open>
  The elementwise product of two one-dimensional arrays, with NumPy's broadcasting:
  equal lengths multiply index by index, an array of length one is stretched, any
  other pair of lengths raises.
\<close>

definition np_multiply :: "complex list \<Rightarrow> complex list \<Rightarrow> error + complex list" where
  "np_multiply xs ys =
     (if length xs = length ys then Inr (map2 (*) xs ys)
      else if length xs = 1 then Inr (map (\<lambda>y. xs ! 0 * y) ys)
      else if length ys = 1 then Inr (map (\<lambda>x. x * ys ! 0) xs)
      else Inl ValueError)"

text \<open>
  Lines 115 to 126, in the order of the source: the four transforms, the two
  products with the conjugated reference transform, the two inverse transforms.
\<close>

definition correlate_projections ::
  "real list \<Rightarrow> real list \<Rightarrow> real list \<Rightarrow> real list \<Rightarrow> error + complex list \<times> complex list" where
  "correlate_projections ref_xproj ref_yproj check_xproj check_yproj =
     and_then (fft (map complex_of_real ref_xproj)) (\<lambda>F_ref_xproj_n.
     and_then (fft (map complex_of_real ref_yproj)) (\<lambda>F_ref_yproj_n.
     and_then (fft (map complex_of_real check_xproj)) (\<lambda>F_check_xproj_n.
     and_then (fft (map complex_of_real check_yproj)) (\<lambda>F_check_yproj_n.
     and_then (np_multiply (conjugate F_ref_xproj_n) F_check_xproj_n) (\<lambda>complex_sum_x_n.
     and_then (np_multiply (conjugate F_ref_yproj_n) F_check_yproj_n) (\<lambda>complex_sum_y_n.
     and_then (ifft complex_sum_x_n) (\<lambda>Phi_ref_check_m_x_n.
     and_then (ifft complex_sum_y_n) (\<lambda>Phi_ref_check_m_y_n.
     Inr (Phi_ref_check_m_x_n, Phi_ref_check_m_y_n)))))))))"

text \<open>
  \<^verbatim>\<open>max(Phi)\<close> is Python's built-in maximum over the complex elements: it keeps the
  first element and replaces it only by a strictly greater one, and NumPy orders
  complex numbers by real part, then by imaginary part.
\<close>

definition np_greater :: "complex \<Rightarrow> complex \<Rightarrow> bool" where
  "np_greater a b \<longleftrightarrow> Re a > Re b \<or> (Re a = Re b \<and> Im a > Im b)"

fun max_from :: "complex \<Rightarrow> complex list \<Rightarrow> complex" where
  "max_from m [] = m"
| "max_from m (y # ys) = max_from (if np_greater y m then y else m) ys"

definition py_max :: "complex list \<Rightarrow> error + complex" where
  "py_max xs = (case xs of [] \<Rightarrow> Inl ValueError | x # ys \<Rightarrow> Inr (max_from x ys))"

text \<open>\<^verbatim>\<open>np.where(Phi == z)[0]\<close>: the indices of the elements equal to \<open>z\<close>, increasing.\<close>

definition np_where_eq :: "complex list \<Rightarrow> complex \<Rightarrow> nat list" where
  "np_where_eq phi z = filter (\<lambda>i. phi ! i = z) [0..<length phi]"

text \<open>
  The peak index of one axis: lines 127 and 128 (129 and 130) and the read
  \<^verbatim>\<open>z_pos[0][0]\<close> with which the refinement block starts.
\<close>

definition z_pos :: "complex list \<Rightarrow> error + nat" where
  "z_pos phi =
     and_then (py_max phi) (\<lambda>z.
       case np_where_eq phi z of [] \<Rightarrow> Inl IndexError | i # _ \<Rightarrow> Inr i)"

subsection \<open>Sub-pixel refinement (lines 135 to 206 of \<^verbatim>\<open>measure_shift\<close>)\<close>

text \<open>
  The three assignments \<^verbatim>\<open>tst[k] = Phi[...].real\<close> of a branch: three indexed reads
  of the correlation sequence, in order, keeping the real parts.
\<close>

definition tst3 :: "complex list \<Rightarrow> int \<Rightarrow> int \<Rightarrow> int \<Rightarrow> error + real list" where
  "tst3 phi i j k =
     (case py_index phi i of Inl e \<Rightarrow> Inl e | Inr u \<Rightarrow>
     (case py_index phi j of Inl e \<Rightarrow> Inl e | Inr v \<Rightarrow>
     (case py_index phi k of Inl e \<Rightarrow> Inl e | Inr w \<Rightarrow> Inr [Re u, Re v, Re w])))"

text \<open>
  The four branch bodies. The x and the y block of the source contain the same four
  bodies, letter for letter up to the suffix of the variable names; each returns the
  value it assigns to \<^verbatim>\<open>self.solution_n_x\<close> (\<^verbatim>\<open>self.solution_n_y\<close>). The unused
  \<^verbatim>\<open>polyval\<close> results are left out. In Python the unary minus binds tighter than the
  division, so \<^verbatim>\<open>-c[1] / (2 * c[0])\<close> is \<open>(- c\<^sub>1) / (2 c\<^sub>0)\<close>.
\<close>

definition fit_first_half :: "complex list \<Rightarrow> nat \<Rightarrow> error + real option" where
  "fit_first_half phi p =
     (let z = int p; lra = [z - 1, z, z + 1] in
      case tst3 phi (lra ! 0) (lra ! 1) (lra ! 2) of Inl e \<Rightarrow> Inl e
      | Inr tst \<Rightarrow>
          let coeffs = polyfit (map real_of_int lra) tst
          in Inr (map_option uminus (np_div (- (coeffs ! 1)) (2 * (coeffs ! 0)))))"

definition fit_second_half :: "complex list \<Rightarrow> nat \<Rightarrow> error + real option" where
  "fit_second_half phi p =
     (let z = int p; lra = [z - 1, z, z + 1] in
      case tst3 phi (lra ! 0) (lra ! 1) (lra ! 2) of Inl e \<Rightarrow> Inl e
      | Inr tst \<Rightarrow>
          let coeffs = polyfit (map real_of_int lra) tst
          in Inr (map_option (\<lambda>q. real (length phi) + q)
                   (np_div (coeffs ! 1) (2 * (coeffs ! 0)))))"

definition fit_right_edge :: "complex list \<Rightarrow> error + real option" where
  "fit_right_edge phi =
     (let lra = [- 1, 0, 1] in
      case tst3 phi (- 2) (- 1) 0 of Inl e \<Rightarrow> Inl e
      | Inr tst \<Rightarrow>
          let coeffs = polyfit lra tst
          in Inr (map_option (\<lambda>q. 1 + q) (np_div (coeffs ! 1) (2 * (coeffs ! 0)))))"

definition fit_left_edge :: "complex list \<Rightarrow> error + real option" where
  "fit_left_edge phi =
     (let lra = [1, 0, - 1] in
      case tst3 phi (- 1) 0 1 of Inl e \<Rightarrow> Inl e
      | Inr tst \<Rightarrow>
          let coeffs = polyfit lra tst
          in Inr (np_div (- (coeffs ! 1)) (2 * (coeffs ! 0))))"

text \<open>
  The x block, an \<^verbatim>\<open>if / elif / elif / else\<close> chain. The module imports \<^verbatim>\<open>division\<close>
  from \<^verbatim>\<open>__future__\<close>, so \<^verbatim>\<open>len(Phi) / 2\<close> is the true quotient.
\<close>

definition refine_x :: "complex list \<Rightarrow> nat \<Rightarrow> error + real option" where
  "refine_x phi p =
     (if real p \<le> real (length phi) / 2 then fit_first_half phi p
      else if real p > real (length phi) / 2 \<and> int p \<noteq> int (length phi) - 1
        then fit_second_half phi p
      else if int p = int (length phi) - 1 then fit_right_edge phi
      else fit_left_edge phi)"

text \<open>
  The y block: three independent \<^verbatim>\<open>if\<close> statements, the \<^verbatim>\<open>else\<close> belonging to the
  third. Each statement runs after the one before it; a value assigned by the first
  or second statement is the current \<^verbatim>\<open>self.solution_n_y\<close> (\<open>None\<close>: not assigned)
  until the third statement assigns again.
\<close>

definition refine_y :: "complex list \<Rightarrow> nat \<Rightarrow> error + real option" where
  "refine_y phi p =
     (case (if real p \<le> real (length phi) / 2
            then map_sum id Some (fit_first_half phi p) else Inr None) of
        Inl e \<Rightarrow> Inl e
      | Inr s1 \<Rightarrow>
     (case (if real p > real (length phi) / 2 \<and> int p \<noteq> int (length phi) - 1
            then map_sum id Some (fit_second_half phi p) else Inr s1) of
        Inl e \<Rightarrow> Inl e
      | Inr s2 \<Rightarrow>
     (if int p = int (length phi) - 1 then fit_right_edge phi
      else fit_left_edge phi)))"

subsection \<open>The \<^verbatim>\<open>Donuts\<close> object and \<^verbatim>\<open>measure_shift\<close>\<close>

text \<open>
  The image source: \<^verbatim>\<open>fits.open(path)\<close> yields the list of header-data units of a
  file, each with its header cards (the numeric ones) and its two-dimensional data
  array; a path that cannot be opened raises.
\<close>

record hdu =
  hdu_header :: "string \<rightharpoonup> real"
  hdu_data :: array2

type_synonym files = "string \<rightharpoonup> hdu list"

definition fits_open :: "files \<Rightarrow> string \<Rightarrow> error + hdu list" where
  "fits_open fs path = (case fs path of None \<Rightarrow> Inl IOError | Some h \<Rightarrow> Inr h)"

text \<open>
  Python numbers: under \<^verbatim>\<open>from __future__ import division\<close> the quotient of two
  integers is a float.
\<close>

datatype pynum = PyInt int | PyFloat real

text \<open>
  The attributes of a \<^verbatim>\<open>Donuts\<close> object. Those assigned by \<^verbatim>\<open>__init__\<close> come first
  (\<^verbatim>\<open>self.x\<close> and \<^verbatim>\<open>self.y\<close> are the fields \<open>x_grid\<close> and \<open>y_grid\<close>); those that only
  \<^verbatim>\<open>measure_shift\<close> assigns are \<open>None\<close> until they are assigned.
\<close>

record donuts =
  image_ext :: int
  boarder :: int
  ntiles :: int
  normalise :: bool
  refimage :: string
  subtract_bkg :: bool
  texp :: real
  dy :: int
  dx :: int
  dimx :: int
  dimy :: int
  ref_data :: array2
  w_dimy :: int
  w_dimx :: int
  tilesizex :: pynum
  tilesizey :: pynum
  bkgmap :: "array2 option"
  ref_xproj :: "real list"
  ref_yproj :: "real list"
  x_grid :: "real list"
  y_grid :: "real list"
  checkimage :: "string option"
  check_data :: "array2 option"
  check_bkgmap :: "array2 option"
  check_xproj :: "real list option"
  check_yproj :: "real list option"
  solution_n_x :: "real option option"
  solution_n_y :: "real option option"

text \<open>
  The body of \<^verbatim>\<open>measure_shift(self, checkimage)\<close>. It returns the object after the
  call together with the raised exception or the returned pair; an exception leaves
  the attributes assigned before it in place.

  Line 106 calls \<^verbatim>\<open>__generate_bkg_map\<close> as a bare name. Inside the class body the name
  is mangled to \<^verbatim>\<open>_Donuts__generate_bkg_map\<close> and looked up among the globals of the
  module, which has no such global (the helper is a method of the class): the call
  raises \<^verbatim>\<open>NameError\<close> before any argument is evaluated.

  The two \<^verbatim>\<open>print\<close> calls write to the standard output and are not modelled.
\<close>

definition measure_shift ::
  "files \<Rightarrow> donuts \<Rightarrow> string \<Rightarrow> donuts \<times> (error + real option \<times> real option)" where
  "measure_shift fs self path =
     (let s1 = self\<lparr>checkimage := Some path\<rparr> in
      case and_then (fits_open fs path) (\<lambda>h. py_index h (image_ext s1)) of
        Inl e \<Rightarrow> (s1, Inl e)
      | Inr u \<Rightarrow>
     (let d0 = crop (hdu_data u) (boarder s1) (dimy s1 - boarder s1)
                 (boarder s1) (dimx s1 - boarder s1);
          s2 = s1\<lparr>check_data := Some d0\<rparr> in
      if subtract_bkg s2 then (s2, Inl (NameError ''_Donuts__generate_bkg_map''))
      else
     (let d1 = (if normalise s2 then map (map (\<lambda>v. v / texp s2)) d0 else d0);
          s3 = s2\<lparr>check_data := Some d1\<rparr>;
          s4 = s3\<lparr>check_xproj := Some (np_sum_axis0 d1)\<rparr>;
          s5 = s4\<lparr>check_yproj := Some (np_sum_axis1 d1)\<rparr> in
      case correlate_projections (ref_xproj s5) (ref_yproj s5)
             (np_sum_axis0 d1) (np_sum_axis1 d1) of
        Inl e \<Rightarrow> (s5, Inl e)
      | Inr (Phi_x, Phi_y) \<Rightarrow>
     (case and_then (z_pos Phi_x) (refine_x Phi_x) of
        Inl e \<Rightarrow> (s5, Inl e)
      | Inr vx \<Rightarrow>
     (let s6 = s5\<lparr>solution_n_x := Some vx\<rparr> in
      case and_then (z_pos Phi_y) (refine_y Phi_y) of
        Inl e \<Rightarrow> (s6, Inl e)
      | Inr vy \<Rightarrow> (s6\<lparr>solution_n_y := Some vy\<rparr>, Inr (vx, vy)))))))"

text \<open>
  \<^verbatim>\<open>measure_shift\<close> is decorated with \<^verbatim>\<open>@property\<close>. The expression
  \<^verbatim>\<open>d.measure_shift(checkimage=path)\<close> first reads the attribute \<^verbatim>\<open>d.measure_shift\<close>;
  for a property this calls the function with the object as its only argument, and
  only then would the value of the attribute be called with \<^verbatim>\<open>checkimage=path\<close>.
  \<open>call_measure_shift\<close> is the function object applied to the object and the further
  arguments it is given: it has one further parameter and no default for it.
\<close>

definition call_measure_shift ::
  "files \<Rightarrow> donuts \<Rightarrow> string list \<Rightarrow> donuts \<times> (error + real option \<times> real option)" where
  "call_measure_shift fs self args =
     (case args of
        [path] \<Rightarrow> measure_shift fs self path
      | _ \<Rightarrow> (self, Inl (TypeError ''measure_shift() takes exactly 2 arguments'')))"

definition get_measure_shift ::
  "files \<Rightarrow> donuts \<Rightarrow> donuts \<times> (error + real option \<times> real option)" where
  "get_measure_shift fs self = call_measure_shift fs self []"

definition invoke_measure_shift ::
  "files \<Rightarrow> donuts \<Rightarrow> string \<Rightarrow> donuts \<times> (error + real option \<times> real option)" where
  "invoke_measure_shift fs self path =
     (case get_measure_shift fs self of
        (s, Inl e) \<Rightarrow> (s, Inl e)
      | (s, Inr pair) \<Rightarrow> (s, Inl (TypeError ''tuple object is not callable'')))"

subsection \<open>The constructor\<close>

text \<open>
  Lines 33 to 40 as a function of the values of the names \<^verbatim>\<open>dx\<close> and \<^verbatim>\<open>dy\<close>. The
  branch for a shape that 16 does not divide reads \<^verbatim>\<open>self.base\<close>, an attribute that
  neither the class nor the constructor defines.
\<close>

definition working_dims :: "int \<Rightarrow> int \<Rightarrow> error + int \<times> int" where
  "working_dims dxv dyv =
     (let rx = dxv mod 16; ry = dyv mod 16 in
      if rx \<noteq> 0 \<or> ry \<noteq> 0 then Inl (AttributeError ''base'')
      else Inr (dxv, dyv))"

text \<open>
  \<^verbatim>\<open>__init__\<close>. Lines 19 to 29 store the parameters, open the file, read the
  exposure time and unpack the shape into the attributes \<^verbatim>\<open>self.dy\<close> and \<^verbatim>\<open>self.dx\<close>.
  Line 33 then reads the name \<^verbatim>\<open>dx\<close>. The names in scope are the parameters
  (\<^verbatim>\<open>self\<close>, \<^verbatim>\<open>refimage\<close>, \<^verbatim>\<open>image_ext\<close>, \<^verbatim>\<open>exposure\<close>, \<^verbatim>\<open>normalise\<close>, \<^verbatim>\<open>subtract_bkg\<close>,
  \<^verbatim>\<open>boarder\<close>, \<^verbatim>\<open>ntiles\<close>), the local \<^verbatim>\<open>h\<close>, the imports of the module and the
  built-ins: \<^verbatim>\<open>dx\<close> is none of them, so the read raises and the rest of the
  constructor (with \<open>working_dims\<close>) is never reached. A shape is the length of the
  array and of its rows.
\<close>

definition init ::
  "files \<Rightarrow> string \<Rightarrow> int \<Rightarrow> string \<Rightarrow> bool \<Rightarrow> bool \<Rightarrow> int \<Rightarrow> int \<Rightarrow> error + donuts" where
  "init fs refimage_arg image_ext_arg exposure normalise_arg subtract_bkg_arg boarder_arg
        ntiles_arg =
     and_then (fits_open fs refimage_arg) (\<lambda>h.
     and_then (py_index h image_ext_arg) (\<lambda>u.
     and_then (case hdu_header u exposure of None \<Rightarrow> Inl KeyError | Some t \<Rightarrow> Inr t) (\<lambda>texp_v.
     (let dy_v = int (length (hdu_data u)); dx_v = int (ncols (hdu_data u))
      in Inl (NameError ''dx'')))))"

subsection \<open>The background map\<close>

text \<open>
  \<^verbatim>\<open>__generate_bkg_map(data, tile_num, tilesizex, tilesizey)\<close>. The bounds of a tile
  are products of the loop index and a tile size; NumPy accepts an integer as a slice
  bound and rejects a float.
\<close>

definition times_int :: "int \<Rightarrow> pynum \<Rightarrow> pynum" where
  "times_int i t = (case t of PyInt k \<Rightarrow> PyInt (i * k) | PyFloat r \<Rightarrow> PyFloat (of_int i * r))"

definition as_index :: "pynum \<Rightarrow> error + int" where
  "as_index t =
     (case t of PyInt k \<Rightarrow> Inr k
      | PyFloat r \<Rightarrow> Inl (TypeError ''slice indices must be integers''))"

definition tile :: "array2 \<Rightarrow> int \<Rightarrow> int \<Rightarrow> pynum \<Rightarrow> pynum \<Rightarrow> error + array2" where
  "tile data i j tilesizex_v tilesizey_v =
     and_then (as_index (times_int i tilesizey_v)) (\<lambda>r0.
     and_then (as_index (times_int (i + 1) tilesizey_v)) (\<lambda>r1.
     and_then (as_index (times_int j tilesizex_v)) (\<lambda>c0.
     and_then (as_index (times_int (j + 1) tilesizex_v)) (\<lambda>c1.
     Inr (crop data r0 r1 c0 c1)))))"

text \<open>
  \<^verbatim>\<open>np.median\<close> of all elements of a tile; of an empty tile it is \<^verbatim>\<open>nan\<close> (\<open>None\<close>),
  with a warning.
\<close>

definition np_median :: "array2 \<Rightarrow> real option" where
  "np_median a =
     (let s = sort (concat a); n = length s in
      if n = 0 then None
      else if odd n then Some (s ! (n div 2))
      else Some ((s ! (n div 2 - 1) + s ! (n div 2)) / 2))"

text \<open>The steps of a loop, in order, up to the first exception.\<close>

fun sequence :: "(error + 'a) list \<Rightarrow> error + 'a list" where
  "sequence [] = Inr []"
| "sequence (r # rs) =
     (case r of Inl e \<Rightarrow> Inl e
      | Inr v \<Rightarrow> (case sequence rs of Inl e \<Rightarrow> Inl e | Inr vs \<Rightarrow> Inr (v # vs)))"

text \<open>
  \<^verbatim>\<open>ndimage.zoom(coarse, (zy, zx), order=2)\<close>: the result has
  \<open>round (rows * zy)\<close> rows and \<open>round (columns * zx)\<close> columns (Python rounds a half
  to the even neighbour); its values are those of the spline interpolation, a
  function \<open>spline\<close> of the coarse grid, the output shape and the position, which the
  model takes as a parameter.
\<close>

definition py_round :: "real \<Rightarrow> int" where
  "py_round v =
     (let f = \<lfloor>v\<rfloor>; d = v - of_int f in
      if d < 1 / 2 then f else if d > 1 / 2 then f + 1 else if even f then f else f + 1)"

definition zoom_len :: "nat \<Rightarrow> pynum \<Rightarrow> nat" where
  "zoom_len n z =
     (case z of PyInt k \<Rightarrow> nat (int n * k) | PyFloat r \<Rightarrow> nat (py_round (real n * r)))"

definition zoom ::
  "(real option list list \<Rightarrow> nat \<Rightarrow> nat \<Rightarrow> nat \<Rightarrow> nat \<Rightarrow> real) \<Rightarrow>
   real option list list \<Rightarrow> pynum \<Rightarrow> pynum \<Rightarrow> array2" where
  "zoom spline coarse zy zx =
     (let H = zoom_len (length coarse) zy; W = zoom_len (ncols coarse) zx
      in map (\<lambda>r. map (\<lambda>c. spline coarse H W r c) [0..<W]) [0..<H])"

definition generate_bkg_map ::
  "(real option list list \<Rightarrow> nat \<Rightarrow> nat \<Rightarrow> nat \<Rightarrow> nat \<Rightarrow> real) \<Rightarrow>
   array2 \<Rightarrow> int \<Rightarrow> pynum \<Rightarrow> pynum \<Rightarrow> error + array2" where
  "generate_bkg_map spline data tile_num tilesizex_v tilesizey_v =
     (if tile_num < 0 then Inl ValueError
      else
        and_then
          (sequence (map (\<lambda>i.
             sequence (map (\<lambda>j.
               and_then (tile data (int i) (int j) tilesizex_v tilesizey_v)
                 (\<lambda>t. Inr (np_median t)))
               [0..<nat tile_num]))
             [0..<nat tile_num]))
          (\<lambda>coarse. Inr (zoom spline coarse tilesizey_v tilesizex_v)))"

text \<open>
  The tile sizes the constructor computes (lines 49 and 50): true quotients of two
  integers, which are floats, and raise for a zero divisor.
\<close>

definition tilesize :: "int \<Rightarrow> int \<Rightarrow> error + pynum" where
  "tilesize w_dim ntiles_v =
     (if ntiles_v = 0 then Inl ZeroDivisionError
      else Inr (PyFloat (real_of_int w_dim / real_of_int ntiles_v)))"

subsection \<open>The specification's vocabulary\<close>

text \<open>
  The circular cross-correlation of two real sequences of length \<open>L\<close>:
  \<open>\<Phi>\<^sub>m = \<Sum>\<^sub>n r\<^sub>n c\<^sub>(\<^sub>n \<^sub>+ \<^sub>m\<^sub>) \<^sub>m\<^sub>o\<^sub>d \<^sub>L\<close>.
\<close>

definition circular_correlation :: "real list \<Rightarrow> real list \<Rightarrow> real list" where
  "circular_correlation r c =
     map (\<lambda>m. \<Sum>n<length r. r ! n * c ! ((n + m) mod length r)) [0..<length r]"

text \<open>
  The vertex \<open>- b / (2 a)\<close> of the quadratic \<open>a x\<^sup>2 + b x + c\<close> fitted through three
  (coordinate, value) pairs; non-finite when \<open>a = 0\<close>.
\<close>

definition vertex :: "real list \<Rightarrow> real list \<Rightarrow> real option" where
  "vertex xs ys = (let coeffs = polyfit xs ys in np_div (- (coeffs ! 1)) (2 * (coeffs ! 0)))"

text \<open>
  The refiner as the specification words it: the left boundary \<open>p = 0\<close> with the
  reversed coordinates and result \<open>- vertex\<close>, the right boundary \<open>p = L - 1\<close> with
  \<open>1 + vertex\<close>, the rest of the first half with \<open>- vertex\<close> and the rest of the second
  half with \<open>L + vertex\<close>.
\<close>

definition refiner_spec :: "real list \<Rightarrow> nat \<Rightarrow> real option" where
  "refiner_spec v p =
     (let L = length v in
      if p = 0 then map_option uminus (vertex [1, 0, - 1] [v ! (L - 1), v ! 0, v ! 1])
      else if p = L - 1
        then map_option (\<lambda>u. 1 + u) (vertex [- 1, 0, 1] [v ! (L - 2), v ! (L - 1), v ! 0])
      else if real p \<le> real L / 2
        then map_option uminus
               (vertex [real p - 1, real p, real p + 1] [v ! (p - 1), v ! p, v ! (p + 1)])
      else map_option (\<lambda>u. real L + u)
               (vertex [real p - 1, real p, real p + 1] [v ! (p - 1), v ! p, v ! (p + 1)]))"

text \<open>A constant-valued sequence (a projection with zero variance).\<close>

definition flat :: "real list \<Rightarrow> bool" where
  "flat xs \<longleftrightarrow> xs = replicate (length xs) (hd xs)"

subsection \<open>A small engine and some image files\<close>

text \<open>
  A \<^verbatim>\<open>Donuts\<close> object in the state the constructor is written to leave it for a
  3 by 3 reference image, with no border, background subtraction and normalisation
  switched off; and three check images: a copy of the reference, a 4 by 4 image whose
  upper left 3 by 3 block is the reference, and a constant 3 by 3 image.
\<close>

definition example_reference :: array2 where
  "example_reference = [[1, 2, 3], [4, 5, 6], [7, 8, 10]]"

definition example_engine :: donuts where
  "example_engine =
     \<lparr>image_ext = 0, boarder = 0, ntiles = 1, normalise = False, refimage = ''ref.fits'',
      subtract_bkg = False, texp = 1, dy = 3, dx = 3, dimx = 3, dimy = 3,
      ref_data = example_reference, w_dimy = 3, w_dimx = 3,
      tilesizex = PyFloat 3, tilesizey = PyFloat 3, bkgmap = None,
      ref_xproj = [12, 15, 19], ref_yproj = [6, 15, 25],
      x_grid = [0, 3 / 2, 3], y_grid = [0, 3 / 2, 3],
      checkimage = None, check_data = None, check_bkgmap = None,
      check_xproj = None, check_yproj = None, solution_n_x = None, solution_n_y = None\<rparr>"

definition example_hdu :: "array2 \<Rightarrow> hdu" where
  "example_hdu a = \<lparr>hdu_header = [''EXPTIME'' \<mapsto> 1], hdu_data = a\<rparr>"

definition example_files :: files where
  "example_files =
     [''ref.fits'' \<mapsto> [example_hdu example_reference],
      ''larger.fits'' \<mapsto>
         [example_hdu [[1, 2, 3, 0], [4, 5, 6, 0], [7, 8, 10, 0], [0, 0, 0, 0]]],
      ''flat.fits'' \<mapsto> [example_hdu [[5, 5, 5], [5, 5, 5], [5, 5, 5]]]]"

section \<open>Properties\<close>

subsection \<open>The quadratic fit\<close>

lemma polyfit_interpolates:
  fixes x0 x1 x2 y0 y1 y2 :: real
  assumes "x0 \<noteq> x1" "x1 \<noteq> x2" "x0 \<noteq> x2"
    and fit: "polyfit [x0, x1, x2] [y0, y1, y2] = [a, b, c]"
  shows "a * x0\<^sup>2 + b * x0 + c = y0 \<and> a * x1\<^sup>2 + b * x1 + c = y1 \<and> a * x2\<^sup>2 + b * x2 + c = y2"
proof -
  have a: "a = ((y2 - y1) / (x2 - x1) - (y1 - y0) / (x1 - x0)) / (x2 - x0)"
    and b: "b = (y1 - y0) / (x1 - x0) - a * (x0 + x1)"
    and c: "c = y0 - a * x0 * x0 - b * x0"
    using fit by (auto simp add: Let_def)
  have d: "x1 - x0 \<noteq> 0" "x2 - x1 \<noteq> 0" "x2 - x0 \<noteq> 0"
    using assms(1-3) by auto
  have p0: "a * x0\<^sup>2 + b * x0 + c = y0"
    by (simp add: c power2_eq_square)
  have s: "y1 - y0 = (x1 - x0) * (b + a * (x0 + x1))"
    using d by (simp add: b)
  have p1: "a * x1\<^sup>2 + b * x1 + c = y1"
    using s by (simp add: c power2_eq_square algebra_simps)
  have "(y2 - y1) / (x2 - x1) - (y1 - y0) / (x1 - x0) = a * (x2 - x0)"
    using d by (simp add: a)
  then have "(y2 - y1) / (x2 - x1) = a * (x2 - x0) + (b + a * (x0 + x1))"
    using s d by simp
  then have t: "y2 - y1 = (x2 - x1) * (a * (x2 - x0) + (b + a * (x0 + x1)))"
    using d by (simp add: field_simps)
  have p2: "a * x2\<^sup>2 + b * x2 + c = y2"
    using s t by (simp add: c power2_eq_square algebra_simps)
  from p0 p1 p2 show ?thesis by simp
qed

subsection \<open>Indexed reads and the four branch bodies\<close>

lemma py_index_nonneg:
  "0 \<le> i \<Longrightarrow> i < int (length xs) \<Longrightarrow> py_index xs i = Inr (xs ! nat i)"
  by (simp add: py_index_def Let_def)

lemma py_index_negative:
  "i < 0 \<Longrightarrow> - int (length xs) \<le> i \<Longrightarrow> py_index xs i = Inr (xs ! nat (i + int (length xs)))"
  by (simp add: py_index_def Let_def)

lemma py_index_last: "1 \<le> length xs \<Longrightarrow> py_index xs (- 1) = Inr (xs ! (length xs - 1))"
  using py_index_negative [of "- 1" xs] by (simp add: nat_diff_distrib')

lemma py_index_last2: "2 \<le> length xs \<Longrightarrow> py_index xs (- 2) = Inr (xs ! (length xs - 2))"
  using py_index_negative [of "- 2" xs] by (simp add: nat_diff_distrib')

lemma py_index_nat: "i < length xs \<Longrightarrow> py_index xs (int i) = Inr (xs ! i)"
  using py_index_nonneg [of "int i" xs] by simp

lemma py_index_pred:
  assumes "p < length xs"
  shows "py_index xs (int p - 1) = Inr (xs ! ((p + length xs - 1) mod length xs))"
proof (cases p)
  case 0
  have "1 \<le> length xs" using assms by simp
  then show ?thesis using 0 by (simp add: py_index_last)
next
  case (Suc q)
  then have "(p + length xs - 1) mod length xs = q" and "q < length xs" using assms by simp_all
  then show ?thesis using Suc by (simp add: py_index_nat)
qed

lemma np_div_minus: "np_div (- a) b = map_option uminus (np_div a b)"
  by (simp add: np_div_def)

lemma fit_left_edge_vertex:
  assumes "2 \<le> length phi"
  shows "fit_left_edge phi =
           Inr (vertex [1, 0, - 1] [Re (phi ! (length phi - 1)), Re (phi ! 0), Re (phi ! 1)])"
proof -
  have i0: "py_index phi 0 = Inr (phi ! 0)"
    using assms by (auto simp add: py_index_def)
  have i1: "py_index phi 1 = Inr (phi ! 1)"
    using assms by (simp add: py_index_def)
  have l1: "py_index phi (- 1) = Inr (phi ! (length phi - 1))"
    using assms by (intro py_index_last) simp
  show ?thesis
    by (simp add: fit_left_edge_def tst3_def i0 i1 l1 vertex_def Let_def del: polyfit.simps)
qed

lemma fit_right_edge_vertex:
  assumes "2 \<le> length phi"
  shows "fit_right_edge phi =
           Inr (map_option (\<lambda>v. 1 - v)
                 (vertex [- 1, 0, 1]
                    [Re (phi ! (length phi - 2)), Re (phi ! (length phi - 1)), Re (phi ! 0)]))"
proof -
  have i0: "py_index phi 0 = Inr (phi ! 0)"
    using assms by (auto simp add: py_index_def)
  have l1: "py_index phi (- 1) = Inr (phi ! (length phi - 1))"
    using assms by (intro py_index_last) simp
  have l2: "py_index phi (- 2) = Inr (phi ! (length phi - 2))"
    using assms by (intro py_index_last2) simp
  show ?thesis
    by (simp add: fit_right_edge_def tst3_def i0 l1 l2 vertex_def Let_def np_div_minus
          option.map_comp comp_def del: polyfit.simps)
qed

lemma fit_first_half_vertex:
  assumes "p + 1 < length phi"
  shows "fit_first_half phi p =
           Inr (map_option uminus
                 (vertex [real p - 1, real p, real p + 1]
                    [Re (phi ! ((p + length phi - 1) mod length phi)), Re (phi ! p),
                     Re (phi ! (p + 1))]))"
proof -
  have i0: "py_index phi (int p - 1) = Inr (phi ! ((p + length phi - 1) mod length phi))"
    using assms by (intro py_index_pred) simp
  have i1: "py_index phi (int p) = Inr (phi ! p)"
    using assms by (intro py_index_nat) simp
  have i2: "py_index phi (int p + 1) = Inr (phi ! (p + 1))"
    using assms by (simp add: py_index_def Let_def nat_add_distrib)
  show ?thesis
    by (simp add: fit_first_half_def tst3_def i0 i1 i2 vertex_def Let_def del: polyfit.simps)
qed

lemma fit_second_half_vertex:
  assumes "0 < p" and "p + 1 < length phi"
  shows "fit_second_half phi p =
           Inr (map_option (\<lambda>v. real (length phi) - v)
                 (vertex [real p - 1, real p, real p + 1]
                    [Re (phi ! (p - 1)), Re (phi ! p), Re (phi ! (p + 1))]))"
proof -
  have i0: "py_index phi (int p - 1) = Inr (phi ! (p - 1))"
    using assms py_index_nat [of "p - 1" phi] by (simp add: of_nat_diff)
  have i1: "py_index phi (int p) = Inr (phi ! p)"
    using assms by (intro py_index_nat) simp
  have i2: "py_index phi (int p + 1) = Inr (phi ! (p + 1))"
    using assms by (simp add: py_index_def Let_def nat_add_distrib)
  show ?thesis
    by (simp add: fit_second_half_def tst3_def i0 i1 i2 vertex_def Let_def np_div_minus
          option.map_comp comp_def del: polyfit.simps)
qed

subsection \<open>The two refinement blocks, branch by branch\<close>

lemma refine_x_split:
  assumes "3 \<le> length phi" and "p < length phi"
  shows "refine_x phi p =
           Inr (if real p \<le> real (length phi) / 2
                then map_option uminus
                       (vertex [real p - 1, real p, real p + 1]
                          [Re (phi ! ((p + length phi - 1) mod length phi)), Re (phi ! p),
                           Re (phi ! (p + 1))])
                else if p \<noteq> length phi - 1
                then map_option (\<lambda>v. real (length phi) - v)
                       (vertex [real p - 1, real p, real p + 1]
                          [Re (phi ! (p - 1)), Re (phi ! p), Re (phi ! (p + 1))])
                else map_option (\<lambda>v. 1 - v)
                       (vertex [- 1, 0, 1]
                          [Re (phi ! (length phi - 2)), Re (phi ! (length phi - 1)), Re (phi ! 0)]))
         \<and> (p = length phi - 1 \<longrightarrow> refine_y phi p = refine_x phi p)"
proof -
  have two: "2 \<le> length phi" using assms by simp
  show ?thesis
  proof (cases "real p \<le> real (length phi) / 2")
    case True
    then have p1: "p + 1 < length phi" using assms by linarith
    then have "p \<noteq> length phi - 1" by simp
    then show ?thesis using True fit_first_half_vertex [OF p1] by (simp add: refine_x_def)
  next
    case False
    then have pos: "0 < p" by (cases p) simp_all
    show ?thesis
    proof (cases "p = length phi - 1")
      case True
      then have e: "int p = int (length phi) - 1" using assms by (simp add: of_nat_diff)
      show ?thesis
        using False True e fit_right_edge_vertex [OF two]
        by (simp add: refine_x_def refine_y_def)
    next
      case ne: False
      then have p1: "p + 1 < length phi" and e: "int p \<noteq> int (length phi) - 1"
        using assms by linarith+
      show ?thesis
        using False ne e fit_second_half_vertex [OF pos p1] by (simp add: refine_x_def)
    qed
  qed
qed

lemma refine_y_else:
  assumes "3 \<le> length phi" and "p < length phi" and "p \<noteq> length phi - 1"
  shows "refine_y phi p =
           Inr (vertex [1, 0, - 1] [Re (phi ! (length phi - 1)), Re (phi ! 0), Re (phi ! 1)])"
proof -
  have le: "fit_left_edge phi =
              Inr (vertex [1, 0, - 1] [Re (phi ! (length phi - 1)), Re (phi ! 0), Re (phi ! 1)])"
    using assms(1) by (simp add: fit_left_edge_vertex)
  have ne: "int p \<noteq> int (length phi) - 1" using assms by linarith
  have p1: "p + 1 < length phi" using assms by linarith
  show ?thesis
  proof (cases "real p \<le> real (length phi) / 2")
    case True
    then show ?thesis using ne le fit_first_half_vertex [OF p1] by (simp add: refine_y_def)
  next
    case False
    then have "0 < p" by (cases p) simp_all
    then show ?thesis
      using False ne le fit_second_half_vertex [OF _ p1] by (simp add: refine_y_def)
  qed
qed

subsection \<open>The x block\<close>

text \<open>
  Claim C1, as amended. For a correlation sequence of length \<open>L \<ge> 3\<close> and a peak index
  \<open>p < L\<close> the x block is a three-way split (its \<^verbatim>\<open>else\<close> branch, written for \<open>p = 0\<close>,
  is never taken, because \<open>p = 0\<close> passes the first test \<open>p \<le> L / 2\<close>). With
  \<open>vertex = - b / (2 a)\<close> of the quadratic through the three (coordinate, value) pairs:
  for \<open>p \<le> L / 2\<close> the coordinates are \<open>p - 1, p, p + 1\<close>, the sample at \<open>p - 1\<close> being
  \<open>value[L - 1]\<close> when \<open>p = 0\<close>, and the result is \<open>- vertex\<close>; for \<open>L / 2 < p < L - 1\<close>
  the coordinates are \<open>p - 1, p, p + 1\<close> and the result is \<open>L - vertex\<close>; for
  \<open>p = L - 1\<close> the samples are \<open>value[L - 2], value[L - 1], value[0]\<close> at the
  coordinates \<open>- 1, 0, 1\<close> and the result is \<open>1 - vertex\<close>. At \<open>p = L - 1\<close> the y block
  returns what the x block returns.
\<close>

theorem refine_x_cases:
  assumes "3 \<le> length phi" and "p < length phi"
  shows "refine_x phi p =
           Inr (if real p \<le> real (length phi) / 2
                then map_option uminus
                       (vertex [real p - 1, real p, real p + 1]
                          [Re (phi ! ((p + length phi - 1) mod length phi)), Re (phi ! p),
                           Re (phi ! (p + 1))])
                else if p \<noteq> length phi - 1
                then map_option (\<lambda>v. real (length phi) - v)
                       (vertex [real p - 1, real p, real p + 1]
                          [Re (phi ! (p - 1)), Re (phi ! p), Re (phi ! (p + 1))])
                else map_option (\<lambda>v. 1 - v)
                       (vertex [- 1, 0, 1]
                          [Re (phi ! (length phi - 2)), Re (phi ! (length phi - 1)), Re (phi ! 0)]))
         \<and> (p = length phi - 1 \<longrightarrow> refine_y phi p = refine_x phi p)"
  using assms by (rule refine_x_split)

theorem refine_x_cases_witness:
  "3 \<le> length [0, 0, 1, 4, 3 :: complex] \<and> (3::nat) < length [0, 0, 1, 4, 3 :: complex]
   \<and> refine_x [0, 0, 1, 4, 3] 3 = Inr (Some (7 / 4))"
  using refine_x_cases [of "[0, 0, 1, 4, 3]" 3]
  by (simp add: vertex_def np_div_def Let_def)

text \<open>
  The claim as the specification states it fails: at \<open>L = 5\<close>, \<open>p = 3\<close> the x block
  returns \<open>L + b / (2 a) = 7/4\<close> where the specification's \<open>L + vertex\<close> is \<open>33/4\<close>,
  and at \<open>L = 5\<close>, \<open>p = 1\<close> the y block returns \<open>1\<close> where the specification's
  \<open>- vertex\<close> (and the x block) give \<open>- 5/4\<close>.
\<close>

theorem refiner_spec_counterexample:
  "refine_x [0, 0, 1, 4, 3] 3 = Inr (Some (7 / 4))
   \<and> refiner_spec (map Re [0, 0, 1, 4, 3]) 3 = Some (33 / 4)
   \<and> refine_x [0, 0, 1, 4, 3] 3 \<noteq> Inr (refiner_spec (map Re [0, 0, 1, 4, 3]) 3)
   \<and> refine_y [1, 4, 3, 0, 0] 1 = Inr (Some 1)
   \<and> refiner_spec (map Re [1, 4, 3, 0, 0]) 1 = Some (- (5 / 4))
   \<and> refine_y [1, 4, 3, 0, 0] 1 \<noteq> Inr (refiner_spec (map Re [1, 4, 3, 0, 0]) 1)"
  by (simp add: refine_x_def refine_y_def fit_second_half_def fit_first_half_def fit_left_edge_def
      tst3_def py_index_def refiner_spec_def vertex_def np_div_def Let_def)

subsection \<open>The y block\<close>

text \<open>
  Claim C3. For a correlation sequence of length \<open>L \<ge> 3\<close> and a peak index \<open>p < L\<close>
  other than \<open>L - 1\<close>, the y block returns the value of its final \<^verbatim>\<open>else\<close> branch: the
  vertex \<open>- b / (2 a)\<close> of the quadratic through \<open>value[L - 1], value[0], value[1]\<close> at
  the coordinates \<open>1, 0, - 1\<close>, whatever the first or the second \<^verbatim>\<open>if\<close> assigned.
\<close>

theorem refine_y_overwritten:
  assumes "3 \<le> length phi" and "p < length phi" and "p \<noteq> length phi - 1"
  shows "refine_y phi p =
           Inr (vertex [1, 0, - 1] [Re (phi ! (length phi - 1)), Re (phi ! 0), Re (phi ! 1)])"
  using assms by (rule refine_y_else)

theorem refine_y_overwritten_witness:
  "3 \<le> length [1, 4, 3, 0, 0 :: complex] \<and> (1::nat) < length [1, 4, 3, 0, 0 :: complex]
   \<and> (1::nat) \<noteq> length [1, 4, 3, 0, 0 :: complex] - 1
   \<and> refine_y [1, 4, 3, 0, 0] 1 = Inr (Some 1)"
  using refine_y_overwritten [of "[1, 4, 3, 0, 0]" 1]
  by (simp add: vertex_def np_div_def Let_def)

subsection \<open>The transforms compute the circular cross-correlation\<close>

lemma cis_power_root:
  "cis (2 * pi * real k * real_of_int d / real L) = cis (2 * pi * real_of_int d / real L) ^ k"
  by (simp add: DeMoivre algebra_simps)

lemma root_of_unity_sum:
  assumes "0 < L"
  shows "(\<Sum>k<L. cis (2 * pi * real k * real_of_int d / real L)) =
           (if int L dvd d then of_nat L else 0)"
proof -
  define z where "z = cis (2 * pi * real_of_int d / real L)"
  have s: "(\<Sum>k<L. cis (2 * pi * real k * real_of_int d / real L)) = (\<Sum>k<L. z ^ k)"
    unfolding z_def by (simp only: cis_power_root)
  have zL: "z ^ L = 1"
  proof -
    have "z ^ L = cis (2 * pi * real_of_int d)"
      using assms by (simp add: z_def DeMoivre)
    then show ?thesis by simp
  qed
  show ?thesis
  proof (cases "int L dvd d")
    case True
    then obtain q where q: "d = int L * q" by (auto simp: dvd_def)
    have "2 * pi * real_of_int d / real L = 2 * pi * real_of_int q"
      using assms by (simp add: q)
    then have "z = 1" by (simp add: z_def)
    then show ?thesis using True s by simp
  next
    case False
    have "z \<noteq> 1"
    proof
      assume "z = 1"
      then have "cos (2 * pi * real_of_int d / real L) = 1"
        by (simp add: z_def complex_eq_iff)
      then obtain n :: int where n: "2 * pi * real_of_int d / real L = real_of_int n * 2 * pi"
        using cos_one_2pi_int by blast
      then have "(2 * pi) * (real_of_int d / real L) = (2 * pi) * real_of_int n"
        by (simp add: algebra_simps)
      then have "real_of_int d / real L = real_of_int n"
        by (simp only: mult_cancel_left) simp
      then have "real_of_int d = real_of_int (n * int L)" using assms by (simp add: field_simps)
      then have "d = n * int L" by (simp only: of_int_eq_iff)
      then show False using False by simp
    qed
    then have "(\<Sum>k<L. z ^ k) = 0" using zL by (simp add: sum_gp_strict)
    then show ?thesis using False s by simp
  qed
qed

lemma dvd_shift_index:
  assumes "n < L" "m < L" "j < L"
  shows "int L dvd (int n - int j + int m) \<longleftrightarrow> j = (n + m) mod L"
proof
  assume "int L dvd (int n - int j + int m)"
  then have "(int n + int m) mod int L = int j mod int L"
    by (metis add.commute add_diff_eq mod_eq_dvd_iff diff_add_eq)
  then have "(n + m) mod L = j mod L"
    by (metis of_nat_add of_nat_eq_iff zmod_int)
  then show "j = (n + m) mod L" using assms by simp
next
  assume "j = (n + m) mod L"
  then have "int j = (int n + int m) mod int L" by (simp add: zmod_int)
  then have "int L dvd (int n + int m - int j)" by (simp add: dvd_minus_mod)
  then show "int L dvd (int n - int j + int m)" by (simp add: algebra_simps)
qed

lemma dft_correlation:
  fixes R C :: "nat \<Rightarrow> real"
  assumes L: "0 < L" and m: "m < L"
  shows "(\<Sum>k<L. cnj (\<Sum>n<L. of_real (R n) * cis (- (2 * pi * real k * real n / real L)))
                * (\<Sum>j<L. of_real (C j) * cis (- (2 * pi * real k * real j / real L)))
                * cis (2 * pi * real k * real m / real L)) / of_nat L
         = of_real (\<Sum>n<L. R n * C ((n + m) mod L))"
proof -
  have tm: "cnj (\<Sum>n<L. of_real (R n) * cis (- (2 * pi * real k * real n / real L)))
                * (\<Sum>j<L. of_real (C j) * cis (- (2 * pi * real k * real j / real L)))
                * cis (2 * pi * real k * real m / real L)
              = (\<Sum>n<L. \<Sum>j<L. of_real (R n * C j)
                   * cis (2 * pi * real k * real_of_int (int n - int j + int m) / real L))" for k
  proof -
    have h: "cnj (\<Sum>n<L. of_real (R n) * cis (- (2 * pi * real k * real n / real L)))
            = (\<Sum>n<L. of_real (R n) * cis (2 * pi * real k * real n / real L))"
      by (simp add: cis_cnj)
    have "cnj (\<Sum>n<L. of_real (R n) * cis (- (2 * pi * real k * real n / real L)))
                * (\<Sum>j<L. of_real (C j) * cis (- (2 * pi * real k * real j / real L)))
                * cis (2 * pi * real k * real m / real L)
          = (\<Sum>n<L. of_real (R n) * cis (2 * pi * real k * real n / real L))
                * (\<Sum>j<L. of_real (C j) * cis (- (2 * pi * real k * real j / real L)))
                * cis (2 * pi * real k * real m / real L)"
      by (simp only: h)
    also have "\<dots> = (\<Sum>n<L. \<Sum>j<L. (of_real (R n) * cis (2 * pi * real k * real n / real L))
               * (of_real (C j) * cis (- (2 * pi * real k * real j / real L))))
               * cis (2 * pi * real k * real m / real L)"
      by (simp only: sum_product)
    also have "\<dots> = (\<Sum>n<L. \<Sum>j<L. (of_real (R n) * cis (2 * pi * real k * real n / real L))
               * (of_real (C j) * cis (- (2 * pi * real k * real j / real L)))
               * cis (2 * pi * real k * real m / real L))"
      by (simp only: sum_distrib_right)
    also have "\<dots> = (\<Sum>n<L. \<Sum>j<L. of_real (R n * C j)
                   * cis (2 * pi * real k * real_of_int (int n - int j + int m) / real L))"
    proof (intro sum.cong refl)
      fix n j
      have "cis (2 * pi * real k * real n / real L) * cis (- (2 * pi * real k * real j / real L))
              * cis (2 * pi * real k * real m / real L)
            = cis (2 * pi * real k * real_of_int (int n - int j + int m) / real L)"
        by (simp add: cis_mult algebra_simps add_divide_distrib diff_divide_distrib)
      then show "of_real (R n) * cis (2 * pi * real k * real n / real L)
               * (of_real (C j) * cis (- (2 * pi * real k * real j / real L)))
               * cis (2 * pi * real k * real m / real L)
             = of_real (R n * C j)
               * cis (2 * pi * real k * real_of_int (int n - int j + int m) / real L)"
        by (simp add: mult_ac)
    qed
    finally show ?thesis .
  qed
  have "(\<Sum>k<L. cnj (\<Sum>n<L. of_real (R n) * cis (- (2 * pi * real k * real n / real L)))
                * (\<Sum>j<L. of_real (C j) * cis (- (2 * pi * real k * real j / real L)))
                * cis (2 * pi * real k * real m / real L))
        = (\<Sum>k<L. \<Sum>n<L. \<Sum>j<L. of_real (R n * C j)
                   * cis (2 * pi * real k * real_of_int (int n - int j + int m) / real L))"
    by (simp only: tm)
  also have "\<dots> = (\<Sum>n<L. \<Sum>k<L. \<Sum>j<L. of_real (R n * C j)
                   * cis (2 * pi * real k * real_of_int (int n - int j + int m) / real L))"
    by (rule sum.swap)
  also have "\<dots> = (\<Sum>n<L. \<Sum>j<L. \<Sum>k<L. of_real (R n * C j)
                   * cis (2 * pi * real k * real_of_int (int n - int j + int m) / real L))"
    by (intro sum.cong refl sum.swap)
  also have "\<dots> = (\<Sum>n<L. \<Sum>j<L. of_real (R n * C j)
                   * (if int L dvd (int n - int j + int m) then of_nat L else 0))"
    using L by (simp only: sum_distrib_left [symmetric] root_of_unity_sum)
  also have "\<dots> = (\<Sum>n<L. \<Sum>j<L. if j = (n + m) mod L then of_real (R n * C j) * of_nat L else 0)"
  proof (intro sum.cong refl)
    fix n j assume "n \<in> {..<L}" "j \<in> {..<L}"
    then have "int L dvd (int n - int j + int m) \<longleftrightarrow> j = (n + m) mod L"
      using m by (intro dvd_shift_index) simp_all
    then show "of_real (R n * C j) * (if int L dvd (int n - int j + int m) then of_nat L else 0)
             = (if j = (n + m) mod L then of_real (R n * C j) * of_nat L else (0::complex))"
      by simp
  qed
  also have "\<dots> = (\<Sum>n<L. of_real (R n * C ((n + m) mod L)) * of_nat L)"
    using L by (intro sum.cong refl) simp
  also have "\<dots> = of_real (\<Sum>n<L. R n * C ((n + m) mod L)) * of_nat L"
    by (simp add: sum_distrib_right)
  finally show ?thesis using L by simp
qed


lemma correlate_axis:
  assumes len: "length r = length c" and ne: "r \<noteq> []"
    and F: "fft (map complex_of_real r) = Inr F" and G: "fft (map complex_of_real c) = Inr G"
  shows "and_then (np_multiply (conjugate F) G) ifft
           = Inr (map complex_of_real (circular_correlation r c))"
proof -
  define L where "L = length r"
  have L: "0 < L" using ne by (simp add: L_def)
  have Fd: "F = map (\<lambda>k. \<Sum>n<L. of_real (r ! n) * cis (- (2 * pi * real k * real n / real L))) [0..<L]"
    using F L by (auto simp add: fft_def Let_def L_def intro!: sum.cong)
  have Gd: "G = map (\<lambda>k. \<Sum>n<L. of_real (c ! n) * cis (- (2 * pi * real k * real n / real L))) [0..<L]"
    using G L len by (auto simp add: fft_def Let_def L_def intro!: sum.cong)
  have lens: "length F = L" "length G = L" by (simp_all add: Fd Gd)
  define S where "S = map2 (*) (conjugate F) G"
  have S: "np_multiply (conjugate F) G = Inr S"
    by (simp add: np_multiply_def conjugate_def lens S_def)
  have lS: "length S = L" by (simp add: S_def conjugate_def lens)
  have Sk: "S ! k = cnj (\<Sum>n<L. of_real (r ! n) * cis (- (2 * pi * real k * real n / real L)))
                   * (\<Sum>n<L. of_real (c ! n) * cis (- (2 * pi * real k * real n / real L)))"
    if "k < L" for k
    using that by (simp add: S_def conjugate_def Fd Gd)
  have "ifft S = Inr (map (\<lambda>m. (\<Sum>k<L. S ! k * cis (2 * pi * real k * real m / real L)) / of_nat L) [0..<L])"
    using L by (simp add: ifft_def lS)
  also have "map (\<lambda>m. (\<Sum>k<L. S ! k * cis (2 * pi * real k * real m / real L)) / of_nat L) [0..<L]
           = map complex_of_real (circular_correlation r c)"
  proof (rule nth_equalityI)
    show "length (map (\<lambda>m. (\<Sum>k<L. S ! k * cis (2 * pi * real k * real m / real L)) / of_nat L) [0..<L])
            = length (map complex_of_real (circular_correlation r c))"
      by (simp add: circular_correlation_def L_def)
  next
    fix m assume "m < length (map (\<lambda>m. (\<Sum>k<L. S ! k * cis (2 * pi * real k * real m / real L)) / of_nat L) [0..<L])"
    then have m: "m < L" by simp
    have "(\<Sum>k<L. S ! k * cis (2 * pi * real k * real m / real L))
          = (\<Sum>k<L. cnj (\<Sum>n<L. of_real (r ! n) * cis (- (2 * pi * real k * real n / real L)))
                   * (\<Sum>n<L. of_real (c ! n) * cis (- (2 * pi * real k * real n / real L)))
                   * cis (2 * pi * real k * real m / real L))"
      by (intro sum.cong refl) (simp add: Sk)
    then have "(\<Sum>k<L. S ! k * cis (2 * pi * real k * real m / real L)) / of_nat L
               = of_real (\<Sum>n<L. r ! n * c ! ((n + m) mod L))"
      using dft_correlation [OF L m, of "\<lambda>n. r ! n" "\<lambda>n. c ! n"] by simp
    then show "map (\<lambda>m. (\<Sum>k<L. S ! k * cis (2 * pi * real k * real m / real L)) / of_nat L) [0..<L] ! m
               = map complex_of_real (circular_correlation r c) ! m"
      using m by (simp add: circular_correlation_def L_def)
  qed
  finally show ?thesis using S by (simp add: and_then_def)
qed

lemma fft_ok: "xs \<noteq> [] \<Longrightarrow> \<exists>F. fft xs = Inr F \<and> length F = length xs"
  by (simp add: fft_def Let_def)

lemma correlate_projections_eq:
  assumes "length rx = length cx" "rx \<noteq> []" "length ry = length cy" "ry \<noteq> []"
  shows "correlate_projections rx ry cx cy
           = Inr (map complex_of_real (circular_correlation rx cx),
                  map complex_of_real (circular_correlation ry cy))"
proof -
  have cne: "cx \<noteq> []" "cy \<noteq> []" using assms by auto
  obtain Frx where Frx: "fft (map complex_of_real rx) = Inr Frx"
    using fft_ok [of "map complex_of_real rx"] assms by auto
  obtain Fry where Fry: "fft (map complex_of_real ry) = Inr Fry"
    using fft_ok [of "map complex_of_real ry"] assms by auto
  obtain Fcx where Fcx: "fft (map complex_of_real cx) = Inr Fcx"
    using fft_ok [of "map complex_of_real cx"] cne by auto
  obtain Fcy where Fcy: "fft (map complex_of_real cy) = Inr Fcy"
    using fft_ok [of "map complex_of_real cy"] cne by auto
  have x: "and_then (np_multiply (conjugate Frx) Fcx) ifft
             = Inr (map complex_of_real (circular_correlation rx cx))"
    using assms Frx Fcx by (intro correlate_axis)
  have y: "and_then (np_multiply (conjugate Fry) Fcy) ifft
             = Inr (map complex_of_real (circular_correlation ry cy))"
    using assms Fry Fcy by (intro correlate_axis)
  show ?thesis
    using x y by (auto simp add: correlate_projections_def Frx Fry Fcx Fcy and_then_def split: sum.splits)
qed

subsection \<open>The peak of a real-valued sequence\<close>

lemma np_greater_real [simp]: "np_greater (complex_of_real a) (complex_of_real b) \<longleftrightarrow> b < a"
  by (simp add: np_greater_def)

lemma max_from_real:
  "max_from (complex_of_real m) (map complex_of_real ys) = complex_of_real (Max (insert m (set ys)))"
proof (induction ys arbitrary: m)
  case Nil
  then show ?case by simp
next
  case (Cons y ys)
  have "Max (insert m (set (y # ys))) = Max (insert (max m y) (set ys))"
  proof (cases "ys = []")
    case True
    then show ?thesis by simp
  next
    case False
    then have "set ys \<noteq> {}" by simp
    then show ?thesis by (simp add: max.assoc)
  qed
  moreover have "max_from (complex_of_real m) (map complex_of_real (y # ys))
                 = max_from (complex_of_real (max m y)) (map complex_of_real ys)"
    by (simp add: max_def)
  ultimately show ?case using Cons.IH [of "max m y"] by simp
qed

lemma py_max_real:
  "v \<noteq> [] \<Longrightarrow> py_max (map complex_of_real v) = Inr (complex_of_real (Max (set v)))"
  by (cases v) (simp_all add: py_max_def max_from_real)

lemma filter_upt_first:
  assumes "filter P [0..<n] = i # rest"
  shows "i < n \<and> P i \<and> (\<forall>j<i. \<not> P j)"
proof -
  obtain us vs where d: "[0..<n] = us @ i # vs" and no: "\<forall>u\<in>set us. \<not> P u" and Pi: "P i"
    using assms by (auto simp: filter_eq_Cons_iff)
  have "i \<in> set [0..<n]" by (simp only: d) simp
  then have lt: "i < n" by simp
  have "[0..<n] ! length us = i" by (simp only: d) simp
  moreover have "length us < n" using d by (metis length_upt diff_zero length_append less_add_Suc1 length_Cons add_Suc_right)
  ultimately have li: "length us = i" by simp
  have "us = take i [0..<n]" using d li by (metis append_eq_conv_conj)
  then have "us = [0..<i]" using lt by (simp add: take_upt)
  then show ?thesis using lt Pi no by simp
qed

lemma z_pos_real:
  assumes "v \<noteq> []"
  shows "\<exists>p. z_pos (map complex_of_real v) = Inr p \<and> p < length v
             \<and> (\<forall>i<length v. v ! i \<le> v ! p) \<and> (\<forall>i<p. v ! i < v ! p)"
proof -
  define M where "M = Max (set v)"
  have Min: "M \<in> set v" using assms by (simp add: M_def)
  have Mge: "\<forall>i<length v. v ! i \<le> M" by (simp add: M_def)
  have w: "np_where_eq (map complex_of_real v) (complex_of_real M) = filter (\<lambda>i. v ! i = M) [0..<length v]"
    by (auto simp add: np_where_eq_def intro!: filter_cong)
  obtain k where "k < length v" "v ! k = M" using Min by (auto simp: in_set_conv_nth)
  then have "k \<in> set (filter (\<lambda>i. v ! i = M) [0..<length v])" by simp
  then obtain p rest where f: "filter (\<lambda>i. v ! i = M) [0..<length v] = p # rest"
    by (cases "filter (\<lambda>i. v ! i = M) [0..<length v]") auto
  from filter_upt_first [OF f] have p: "p < length v" "v ! p = M" "\<forall>j<p. v ! j \<noteq> M" by auto
  have "\<forall>i<p. v ! i < v ! p"
  proof (intro allI impI)
    fix i assume "i < p"
    then have "v ! i \<noteq> M" "v ! i \<le> M" using p Mge by auto
    then show "v ! i < v ! p" using p by simp
  qed
  moreover have "z_pos (map complex_of_real v) = Inr p"
    using assms by (simp add: z_pos_def py_max_real and_then_def M_def [symmetric] w f)
  ultimately show ?thesis using p Mge by auto
qed

subsection \<open>The body of \<^verbatim>\<open>measure_shift\<close> on projections of matching lengths\<close>

lemma refine_x_total:
  "3 \<le> length phi \<Longrightarrow> p < length phi \<Longrightarrow> \<exists>v. refine_x phi p = Inr v"
  using refine_x_split [of phi p] by blast

lemma refine_y_total:
  assumes "3 \<le> length phi" and "p < length phi"
  shows "\<exists>v. refine_y phi p = Inr v"
proof (cases "p = length phi - 1")
  case True
  then show ?thesis using refine_x_split [of phi p] assms by auto
next
  case False
  then show ?thesis using refine_y_else [of phi p] assms by blast
qed

lemma length_circular_correlation [simp]: "length (circular_correlation r c) = length r"
  by (simp add: circular_correlation_def)

lemma measure_shift_value:
  assumes opened: "fs path = Some h" and ext: "py_index h (image_ext d) = Inr u"
    and nb: "\<not> subtract_bkg d"
    and d1: "d1 = (let d0 = crop (hdu_data u) (boarder d) (dimy d - boarder d)
                              (boarder d) (dimx d - boarder d)
                   in if normalise d then map (map (\<lambda>v. v / texp d)) d0 else d0)"
    and lx: "length (np_sum_axis0 d1) = length (ref_xproj d)" and x3: "3 \<le> length (ref_xproj d)"
    and ly: "length (np_sum_axis1 d1) = length (ref_yproj d)" and y3: "3 \<le> length (ref_yproj d)"
    and Px: "Phi_x = map complex_of_real (circular_correlation (ref_xproj d) (np_sum_axis0 d1))"
    and Py: "Phi_y = map complex_of_real (circular_correlation (ref_yproj d) (np_sum_axis1 d1))"
  shows "\<exists>px py vx vy.
           z_pos Phi_x = Inr px \<and> px < length Phi_x \<and> refine_x Phi_x px = Inr vx
         \<and> z_pos Phi_y = Inr py \<and> py < length Phi_y \<and> refine_y Phi_y py = Inr vy
         \<and> snd (measure_shift fs d path) = Inr (vx, vy)"
proof -
  have nex: "ref_xproj d \<noteq> []" and ney: "ref_yproj d \<noteq> []" using x3 y3 by auto
  have cp: "correlate_projections (ref_xproj d) (ref_yproj d) (np_sum_axis0 d1) (np_sum_axis1 d1)
              = Inr (Phi_x, Phi_y)"
    using lx ly nex ney by (simp add: correlate_projections_eq Px Py)
  have lPx: "length Phi_x = length (ref_xproj d)" and lPy: "length Phi_y = length (ref_yproj d)"
    by (simp_all add: Px Py)
  obtain px where px: "z_pos Phi_x = Inr px" "px < length Phi_x"
    using z_pos_real [of "circular_correlation (ref_xproj d) (np_sum_axis0 d1)"] nex
    by (auto simp add: Px circular_correlation_def)
  obtain py where py: "z_pos Phi_y = Inr py" "py < length Phi_y"
    using z_pos_real [of "circular_correlation (ref_yproj d) (np_sum_axis1 d1)"] ney
    by (auto simp add: Py circular_correlation_def)
  obtain vx where vx: "refine_x Phi_x px = Inr vx"
    using refine_x_total [of Phi_x px] px x3 lPx by auto
  obtain vy where vy: "refine_y Phi_y py = Inr vy"
    using refine_y_total [of Phi_y py] py y3 lPy by auto
  have "snd (measure_shift fs d path) = Inr (vx, vy)"
  proof (cases "normalise d")
    case True
    then have "correlate_projections (ref_xproj d) (ref_yproj d)
                 (np_sum_axis0 (map (map (\<lambda>v. v / texp d))
                    (crop (hdu_data u) (boarder d) (dimy d - boarder d)
                       (boarder d) (dimx d - boarder d))))
                 (np_sum_axis1 (map (map (\<lambda>v. v / texp d))
                    (crop (hdu_data u) (boarder d) (dimy d - boarder d)
                       (boarder d) (dimx d - boarder d))))
               = Inr (Phi_x, Phi_y)"
      using cp d1 by (simp add: Let_def)
    then show ?thesis
      using nb True
      by (simp add: measure_shift_def Let_def fits_open_def opened ext and_then_def px vx py vy)
  next
    case False
    then have "correlate_projections (ref_xproj d) (ref_yproj d)
                 (np_sum_axis0 (crop (hdu_data u) (boarder d) (dimy d - boarder d)
                       (boarder d) (dimx d - boarder d)))
                 (np_sum_axis1 (crop (hdu_data u) (boarder d) (dimy d - boarder d)
                       (boarder d) (dimx d - boarder d)))
               = Inr (Phi_x, Phi_y)"
      using cp d1 by (simp add: Let_def)
    then show ?thesis
      using nb False
      by (simp add: measure_shift_def Let_def fits_open_def opened ext and_then_def px vx py vy)
  qed
  then show ?thesis using px py vx vy by blast
qed

end
